theory Spec2Isabelle
  imports Main "HOL-Library.Sublist"
begin

section \<open>Python strings\<close>

text \<open>
  A string is a list of characters, one character for each code point, and the
  characters are the code points 0 to 255 (Latin-1). \<open>len\<close>, slices, \<open>lower\<close>,
  \<open>strip\<close> and \<open>int\<close> are Python's on these code points; text with a code point
  above 255 is outside the type.
\<close>

definition digit_chars :: string where
  "digit_chars = ''0123456789''"

definition digit_char :: "nat \<Rightarrow> char" where
  "digit_char d = digit_chars ! d"

text \<open>\<open>str(n)\<close> for a natural number: its decimal digits, most significant first.\<close>

fun str_nat :: "nat \<Rightarrow> string" where
  "str_nat n = (if n < 10 then [digit_char n] else str_nat (n div 10) @ [digit_char (n mod 10)])"

declare str_nat.simps [simp del]

text \<open>\<open>str(i)\<close> for an integer.\<close>

definition str_int :: "int \<Rightarrow> string" where
  "str_int i = (if i < 0 then CHR ''-'' # str_nat (nat (- i)) else str_nat (nat i))"

text \<open>
  The format specification \<open>02d\<close>: the sign, then zeros up to a total width of two,
  then the digits. A number of more than two characters is not cut.
\<close>

definition format_02d :: "int \<Rightarrow> string" where
  "format_02d i =
     (let sign = (if i < 0 then ''-'' else '''');
          digits = str_nat (nat \<bar>i\<bar>)
      in sign @ replicate (2 - (length sign + length digits)) CHR ''0'' @ digits)"

text \<open>
  \<open>str.lower\<close> on one character: the letters A to Z (code points 65 to 90) and the
  Latin-1 capitals 0xC0 to 0xDE (192 to 222) without the multiplication sign 0xD7 (215)
  become the character 32 above them; every other character stays.
\<close>

definition isupper :: "char \<Rightarrow> bool" where
  "isupper c =
     (let n = (of_char c :: nat)
      in (65 \<le> n \<and> n \<le> 90) \<or> (192 \<le> n \<and> n \<le> 214) \<or> (216 \<le> n \<and> n \<le> 222))"

definition lower_char :: "char \<Rightarrow> char" where
  "lower_char c = (if isupper c then char_of (of_char c + (32 :: nat)) else c)"

text \<open>\<open>s.lower()\<close>\<close>

definition lower :: "string \<Rightarrow> string" where
  "lower s = map lower_char s"

text \<open>
  The white space of \<open>str.strip\<close>, \<open>str.isspace\<close> and \<open>int\<close>: tab to carriage return,
  the four separators 0x1C to 0x1F, the space, the next-line character 0x85 and the
  no-break space 0xA0.
\<close>

definition whitespace :: string where
  "whitespace = [CHR 0x09, CHR 0x0A, CHR 0x0B, CHR 0x0C, CHR 0x0D,
                 CHR 0x1C, CHR 0x1D, CHR 0x1E, CHR 0x1F, CHR 0x20, CHR 0x85, CHR 0xA0]"

definition isspace :: "char \<Rightarrow> bool" where
  "isspace c = (c \<in> set whitespace)"

text \<open>\<open>s.strip()\<close>: white space removed at both ends.\<close>

definition strip :: "string \<Rightarrow> string" where
  "strip s = rev (dropWhile isspace (rev (dropWhile isspace s)))"

text \<open>
  \<open>s.replace(old, new)\<close>: every occurrence of \<open>old\<close>, found from the left and not
  overlapping, is replaced. With an empty \<open>old\<close>, \<open>new\<close> goes before every character
  and at the end.
\<close>

function replace :: "string \<Rightarrow> string \<Rightarrow> string \<Rightarrow> string" where
  "replace [] old new = (if old = [] then new else [])"
| "replace (c # cs) old new =
     (if old = [] then new @ c # replace cs old new
      else if prefix old (c # cs) then new @ replace (drop (length old) (c # cs)) old new
      else c # replace cs old new)"
  by pat_completeness auto
termination
  by (relation "measure (\<lambda>(s, old, new). length s)") auto

text \<open>
  \<open>int(s)\<close> for a string: white space stripped, an optional sign, then decimal digits,
  where a single underscore may stand between two digits. Anything else is a ValueError,
  here \<open>None\<close>.
\<close>

definition digit_value :: "char \<Rightarrow> nat option" where
  "digit_value c = map_of (zip digit_chars [0 ..< 10]) c"

fun digits_value :: "nat \<Rightarrow> string \<Rightarrow> nat option" where
  "digits_value acc [] = Some acc"
| "digits_value acc (c # cs) =
     (case digit_value c of
        Some d \<Rightarrow>
          (case cs of
             [] \<Rightarrow> Some (10 * acc + d)
           | c' # cs' \<Rightarrow>
               if c' = CHR ''_'' then (if cs' = [] then None else digits_value (10 * acc + d) cs')
               else digits_value (10 * acc + d) cs)
      | None \<Rightarrow> None)"

definition int_of_digits :: "string \<Rightarrow> nat option" where
  "int_of_digits s = (if s = [] then None else digits_value 0 s)"

definition py_int :: "string \<Rightarrow> int option" where
  "py_int s =
     (case strip s of
        [] \<Rightarrow> None
      | c # cs \<Rightarrow>
          if c = CHR ''-'' then map_option (\<lambda>n. - int n) (int_of_digits cs)
          else if c = CHR ''+'' then map_option int (int_of_digits cs)
          else map_option int (int_of_digits (c # cs)))"

section \<open>The data frame\<close>

text \<open>
  A cell of a text column as \<open>pandas.read_csv\<close> delivers it: a string, or NaN where the
  field is missing. A row carries the three columns the program reads; \<open>columns\<close> lists
  the columns the frame really has, and a row's field for a column that is not listed
  has no meaning.
\<close>

datatype cell = Str string | NaN

record row =
  video :: cell
  transcription :: cell
  key_phrases :: cell

record dataframe =
  columns :: "string list"
  rows :: "row list"

datatype py_error =
  FileNotFoundError | ParserError | KeyError | AttributeError | TypeError | ValueError | ReError

text \<open>Sequencing of steps that may raise: the first exception ends the computation.\<close>

definition and_then :: "py_error + 'a \<Rightarrow> ('a \<Rightarrow> py_error + 'b) \<Rightarrow> py_error + 'b" where
  "and_then m f = (case m of Inl e \<Rightarrow> Inl e | Inr x \<Rightarrow> f x)"

text \<open>\<open>df['video']\<close> and \<open>df['key_phrases']\<close>: a KeyError when the column is absent.\<close>

definition getitem_video :: "dataframe \<Rightarrow> py_error + cell list" where
  "getitem_video df =
     (if ''video'' \<in> set (columns df) then Inr (map video (rows df)) else Inl KeyError)"

definition getitem_key_phrases :: "dataframe \<Rightarrow> py_error + cell list" where
  "getitem_key_phrases df =
     (if ''key_phrases'' \<in> set (columns df) then Inr (map key_phrases (rows df)) else Inl KeyError)"

text \<open>
  The \<open>.str\<close> accessor of a column. A column with rows that are all missing is read as
  a float column, and the accessor raises AttributeError on it; a column with no rows,
  or with a string in it, is an object column.
\<close>

definition str_accessor :: "cell list \<Rightarrow> py_error + cell list" where
  "str_accessor col =
     (if col \<noteq> [] \<and> list_all (\<lambda>c. c = NaN) col then Inl AttributeError else Inr col)"

text \<open>\<open>.str[:n]\<close> and \<open>.str.lower()\<close> keep a missing value missing.\<close>

definition str_slice_to :: "nat \<Rightarrow> cell \<Rightarrow> cell" where
  "str_slice_to n c = (case c of Str s \<Rightarrow> Str (take n s) | NaN \<Rightarrow> NaN)"

definition str_lower :: "cell \<Rightarrow> cell" where
  "str_lower c = (case c of Str s \<Rightarrow> Str (lower s) | NaN \<Rightarrow> NaN)"

text \<open>\<open>df[mask]\<close>: the rows whose mask bit is set, in the frame's order.\<close>

definition boolean_index :: "dataframe \<Rightarrow> bool list \<Rightarrow> dataframe" where
  "boolean_index df bits = df\<lparr>rows := map fst (filter snd (zip (rows df) bits))\<rparr>"

text \<open>\<open>pd.DataFrame()\<close>\<close>

definition empty_frame :: dataframe where
  "empty_frame = \<lparr>columns = [], rows = []\<rparr>"

section \<open>get_module_videos\<close>

definition module_prefix :: "int \<Rightarrow> string" where
  "module_prefix module_number = ''Mod'' @ format_02d module_number"

definition get_module_videos_try :: "dataframe \<Rightarrow> int \<Rightarrow> py_error + dataframe" where
  "get_module_videos_try df module_number =
     and_then (getitem_video df) (\<lambda>col.
     and_then (str_accessor col) (\<lambda>strs.
       Inr (boolean_index df
              (map (\<lambda>c. str_slice_to 5 c = Str (module_prefix module_number)) strs))))"

definition get_module_videos :: "dataframe \<Rightarrow> int \<Rightarrow> dataframe" where
  "get_module_videos df module_number =
     (case get_module_videos_try df module_number of
        Inr module_videos \<Rightarrow> module_videos
      | Inl e \<Rightarrow> empty_frame)"

section \<open>Regular expressions\<close>

text \<open>
  \<open>Series.str.contains(pat, na=False)\<close> compiles \<open>pat\<close> as a regular expression
  (its \<open>regex\<close> argument defaults to true) and tests each string with \<open>re.search\<close>.
  The patterns built from ordinary characters and the dot are modelled here: an ordinary
  character matches itself, the dot matches every character but the newline.

  For a pattern with one of the other special characters of Python's \<open>re\<close> the library
  is a parameter \<open>beyond\<close> of the model: \<open>beyond pat\<close> is \<open>None\<close> where \<open>re.compile\<close>
  raises \<open>re.error\<close>, and otherwise the predicate that tells of a string whether
  \<open>re.search\<close> finds a match in it. A statement with a free \<open>beyond\<close> holds whatever
  the library does with those patterns.
\<close>

definition re_special :: string where
  "re_special = [CHR 0x5C, CHR ''^'', CHR ''$'', CHR ''*'', CHR ''+'', CHR ''?'', CHR ''{'',
                 CHR ''}'', CHR ''['', CHR '']'', CHR ''('', CHR '')'', CHR ''|'']"

definition re_supported :: "string \<Rightarrow> bool" where
  "re_supported pat = list_all (\<lambda>c. c \<notin> set re_special) pat"

datatype re_atom = Literal char | Any_Char

definition re_compile :: "string \<Rightarrow> re_atom list" where
  "re_compile pat = map (\<lambda>c. if c = CHR ''.'' then Any_Char else Literal c) pat"

fun atom_matches :: "re_atom \<Rightarrow> char \<Rightarrow> bool" where
  "atom_matches (Literal a) c = (a = c)"
| "atom_matches Any_Char c = (c \<noteq> CHR 0x0A)"

text \<open>A match that starts at the first character of the string.\<close>

fun re_match :: "re_atom list \<Rightarrow> string \<Rightarrow> bool" where
  "re_match [] s = True"
| "re_match (a # as) [] = False"
| "re_match (a # as) (c # cs) = (atom_matches a c \<and> re_match as cs)"

text \<open>\<open>re.search\<close>: a match that starts anywhere in the string.\<close>

fun re_search :: "re_atom list \<Rightarrow> string \<Rightarrow> bool" where
  "re_search p [] = re_match p []"
| "re_search p (c # cs) = (re_match p (c # cs) \<or> re_search p cs)"

text \<open>
  The compiled pattern as a test of strings, or \<open>None\<close> for \<open>re.error\<close>.
\<close>

definition re_engine :: "(string \<Rightarrow> (string \<Rightarrow> bool) option) \<Rightarrow> string \<Rightarrow> (string \<Rightarrow> bool) option" where
  "re_engine beyond pat =
     (if re_supported pat then Some (re_search (re_compile pat)) else beyond pat)"

text \<open>
  \<open>col.str.contains(pat, na=False)\<close>: the pattern is compiled before any cell is
  looked at, and a missing cell counts as no match.
\<close>

definition str_contains ::
  "(string \<Rightarrow> (string \<Rightarrow> bool) option) \<Rightarrow> cell list \<Rightarrow> string \<Rightarrow> py_error + bool list" where
  "str_contains beyond col pat =
     (case re_engine beyond pat of
        None \<Rightarrow> Inl ReError
      | Some found \<Rightarrow> Inr (map (\<lambda>c. case c of Str s \<Rightarrow> found s | NaN \<Rightarrow> False) col))"

text \<open>
  One bit of the mask of \<open>search_videos\<close>, read for one cell and a compiled pattern:
  \<open>.str.lower().str.contains(pat, na=False)\<close>.
\<close>

definition cell_hit :: "(string \<Rightarrow> bool) \<Rightarrow> cell \<Rightarrow> bool" where
  "cell_hit found c = (case c of Str s \<Rightarrow> found (lower s) | NaN \<Rightarrow> False)"

text \<open>
  An instance of the parameter for evaluating searches: it says \<open>re.error\<close> to every
  pattern it is asked about. A search with a pattern of ordinary characters and dots
  does not ask it.
\<close>

definition no_beyond :: "string \<Rightarrow> (string \<Rightarrow> bool) option" where
  "no_beyond pat = None"

section \<open>The backing file and load_data\<close>

text \<open>
  The world a request runs in: the backing file as \<open>read_csv\<close> finds it (absent, not
  parseable, or a table), the number of times the file has been read, and the contents
  of the temporary files created so far.
\<close>

datatype file_state = Missing | Malformed | Table dataframe

record world =
  data_file :: file_state
  reads :: nat
  temp_files :: "string list"

definition read_csv :: "file_state \<Rightarrow> py_error + dataframe" where
  "read_csv f =
     (case f of
        Missing \<Rightarrow> Inl FileNotFoundError
      | Malformed \<Rightarrow> Inl ParserError
      | Table df \<Rightarrow> Inr df)"

text \<open>
  The body of the \<open>try\<close> of \<open>load_data\<close>: besides reading the file it prints the head of
  \<open>df['video']\<close> and the prefixes \<open>df['video'].str[:5]\<close>, which raise when the column is
  absent or is not a string column.
\<close>

definition load_data_try :: "file_state \<Rightarrow> py_error + dataframe" where
  "load_data_try f =
     and_then (read_csv f) (\<lambda>df.
     and_then (getitem_video df) (\<lambda>col.
     and_then (str_accessor col) (\<lambda>strs. Inr df)))"

definition empty_dataset :: dataframe where
  "empty_dataset = \<lparr>columns = [''video'', ''transcription'', ''key_phrases''], rows = []\<rparr>"

definition load_data :: "world \<Rightarrow> dataframe \<times> world" where
  "load_data w =
     ((case load_data_try (data_file w) of Inr df \<Rightarrow> df | Inl e \<Rightarrow> empty_dataset),
      w\<lparr>reads := Suc (reads w)\<rparr>)"

section \<open>The request handlers\<close>

definition S3_BASE_URL :: string where
  "S3_BASE_URL = ''https://arya-geetha-nlp.s3.us-east-1.amazonaws.com/''"

text \<open>
  One element of the \<open>videos\<close> list of a response. The module listing gives no
  \<open>module\<close> key, the search does.
\<close>

record entry =
  id' :: string
  title :: string
  transcript :: string
  url :: string
  module :: "string option"

text \<open>The text of an error body: a fixed message, or \<open>str(e)\<close> of a caught exception.\<close>

datatype error_text = Message string | Str_Of py_error

datatype response =
  Json_Videos "entry list"
| Json_Error nat error_text
| Send_File (download_name: string) (mimetype: string) (file_content: string)

text \<open>
  What a view function does with a request: it returns a response, or an exception
  leaves it.
\<close>

datatype outcome = Returned response | Raised py_error

text \<open>\<open>row['video']\<close> and \<open>row['key_phrases']\<close> for a row of a frame.\<close>

definition row_video :: "dataframe \<Rightarrow> row \<Rightarrow> py_error + cell" where
  "row_video df r = (if ''video'' \<in> set (columns df) then Inr (video r) else Inl KeyError)"

definition row_key_phrases :: "dataframe \<Rightarrow> row \<Rightarrow> py_error + cell" where
  "row_key_phrases df r =
     (if ''key_phrases'' \<in> set (columns df) then Inr (key_phrases r) else Inl KeyError)"

text \<open>
  The conditional expression of the \<open>transcript\<close> key: \<open>len\<close> of the cell is taken
  first, and a missing value (a float) has no length.
\<close>

definition transcript_preview :: "cell \<Rightarrow> py_error + string" where
  "transcript_preview kp =
     (case kp of
        NaN \<Rightarrow> Inl TypeError
      | Str s \<Rightarrow> Inr (if 200 < length s then take 200 s @ ''...'' else s))"

text \<open>A \<open>for\<close> loop that appends one element per row and stops at the first exception.\<close>

fun collect :: "('a \<Rightarrow> py_error + 'b) \<Rightarrow> 'a list \<Rightarrow> py_error + 'b list" where
  "collect f [] = Inr []"
| "collect f (x # xs) =
     and_then (f x) (\<lambda>y. and_then (collect f xs) (\<lambda>ys. Inr (y # ys)))"

subsection \<open>get_videos\<close>

definition module_entry :: "dataframe \<Rightarrow> nat \<Rightarrow> row \<Rightarrow> py_error + entry" where
  "module_entry module_videos module_number r =
     and_then (row_video module_videos r) (\<lambda>video_name.
       case video_name of
         NaN \<Rightarrow> Inl AttributeError
       | Str name \<Rightarrow>
           and_then (row_key_phrases module_videos r) (\<lambda>kp.
           and_then (transcript_preview kp) (\<lambda>preview.
             Inr \<lparr>id' = name,
                  title = strip (replace (replace name (module_prefix (int module_number)) [])
                                   ''.mp4'' []),
                  transcript = preview,
                  url = S3_BASE_URL @ name,
                  module = None\<rparr>)))"

definition get_videos_try :: "nat \<Rightarrow> dataframe \<Rightarrow> py_error + response" where
  "get_videos_try module_number df =
     and_then (getitem_video df) (\<lambda>names.
       let module_videos = get_module_videos df (int module_number) in
       and_then (collect (module_entry module_videos module_number) (rows module_videos))
         (\<lambda>videos. Inr (Json_Videos videos)))"

definition get_videos :: "nat \<Rightarrow> world \<Rightarrow> outcome \<times> world" where
  "get_videos module_number w =
     (let (df, w') = load_data w in
      (case get_videos_try module_number df of
         Inr resp \<Rightarrow> Returned resp
       | Inl e \<Rightarrow> Returned (Json_Error 500 (Str_Of e)),
       w'))"

subsection \<open>download_transcript\<close>

text \<open>\<open>df[df['video'] == video_id]\<close>\<close>

definition select_video :: "dataframe \<Rightarrow> string \<Rightarrow> py_error + dataframe" where
  "select_video df video_id =
     and_then (getitem_video df) (\<lambda>col.
       Inr (boolean_index df (map (\<lambda>c. c = Str video_id) col)))"

text \<open>
  The view has no \<open>try\<close>. The temporary file exists, empty, from the moment it is
  created; \<open>f.write\<close> of a missing value raises a TypeError and leaves it empty.
\<close>

definition download_transcript :: "string \<Rightarrow> world \<Rightarrow> outcome \<times> world" where
  "download_transcript video_id w =
     (let (df, w') = load_data w in
      case select_video df video_id of
        Inl e \<Rightarrow> (Raised e, w')
      | Inr found \<Rightarrow>
          (case rows found of
             [] \<Rightarrow> (Returned (Json_Error 404 (Message ''Video not found'')), w')
           | r # rest \<Rightarrow>
               (case row_key_phrases found r of
                  Inl e \<Rightarrow> (Raised e, w')
                | Inr NaN \<Rightarrow> (Raised TypeError, w'\<lparr>temp_files := temp_files w' @ [[]]\<rparr>)
                | Inr (Str text) \<Rightarrow>
                    (Returned (Send_File (video_id @ ''_transcript.txt'') ''text/plain'' text),
                     w'\<lparr>temp_files := temp_files w' @ [text]\<rparr>))))"

subsection \<open>search_videos\<close>

definition search_entry :: "dataframe \<Rightarrow> row \<Rightarrow> py_error + entry" where
  "search_entry matching_videos r =
     and_then (row_video matching_videos r) (\<lambda>video_name.
       case video_name of
         NaN \<Rightarrow> Inl TypeError
       | Str name \<Rightarrow>
           let module_num = take 2 (drop 3 name) in
           and_then (row_key_phrases matching_videos r) (\<lambda>kp.
           and_then (transcript_preview kp) (\<lambda>preview.
             case py_int module_num of
               None \<Rightarrow> Inl ValueError
             | Some m \<Rightarrow>
                 Inr \<lparr>id' = name,
                      title = strip (replace (replace name (''Mod'' @ module_num) [])
                                       ''.mp4'' []),
                      transcript = preview,
                      url = S3_BASE_URL @ name,
                      module = Some (''Module '' @ str_int m)\<rparr>)))"

definition search_try ::
  "(string \<Rightarrow> (string \<Rightarrow> bool) option) \<Rightarrow> string \<Rightarrow> dataframe \<Rightarrow> py_error + response" where
  "search_try beyond query df =
     and_then (getitem_video df) (\<lambda>names.
     and_then (str_accessor names) (\<lambda>name_strs.
     and_then (str_accessor (map str_lower name_strs)) (\<lambda>lower_names.
     and_then (str_contains beyond lower_names query) (\<lambda>name_hits.
     and_then (getitem_key_phrases df) (\<lambda>phrases.
     and_then (str_accessor phrases) (\<lambda>phrase_strs.
     and_then (str_accessor (map str_lower phrase_strs)) (\<lambda>lower_phrases.
     and_then (str_contains beyond lower_phrases query) (\<lambda>phrase_hits.
       let matching_videos = boolean_index df (map2 (\<or>) name_hits phrase_hits)
       in and_then (collect (search_entry matching_videos) (rows matching_videos))
            (\<lambda>videos. Inr (Json_Videos videos))))))))))"

text \<open>
  \<open>q\<close> is the request's \<open>q\<close> argument, \<open>None\<close> when the request has none. The data
  is loaded only after the test for the empty query.
\<close>

definition search_videos ::
  "(string \<Rightarrow> (string \<Rightarrow> bool) option) \<Rightarrow> string option \<Rightarrow> world \<Rightarrow> outcome \<times> world" where
  "search_videos beyond q w =
     (let query = lower (case q of None \<Rightarrow> [] | Some s \<Rightarrow> s) in
      if query = [] then (Returned (Json_Videos []), w)
      else
        let (df, w') = load_data w in
        (case search_try beyond query df of
           Inr resp \<Rightarrow> Returned resp
         | Inl e \<Rightarrow> Returned (Json_Error 500 (Str_Of e)),
         w'))"

section \<open>The title as the specification words it\<close>

text \<open>
  The specification's wording of the title: the module prefix removed where the name
  starts with it, \<open>.mp4\<close> removed where the name ends with it, the rest stripped. It is
  stated here to be compared with the title \<open>get_videos\<close> computes.
\<close>

definition remove_leading :: "string \<Rightarrow> string \<Rightarrow> string" where
  "remove_leading p s = (if prefix p s then drop (length p) s else s)"

definition remove_trailing :: "string \<Rightarrow> string \<Rightarrow> string" where
  "remove_trailing p s = (if suffix p s then take (length s - length p) s else s)"

definition spec_title :: "nat \<Rightarrow> string \<Rightarrow> string" where
  "spec_title n name =
     strip (remove_trailing ''.mp4'' (remove_leading (module_prefix (int n)) name))"

section \<open>The preview as the specification words it\<close>

text \<open>
  \<open>spec_preview kp t\<close>: \<open>t\<close> is the preview of the text \<open>kp\<close>. A text of at most 200
  characters is its own preview; the preview of a longer one is its first 200
  characters followed by three dots, 203 characters in all.
\<close>

definition spec_preview :: "string \<Rightarrow> string \<Rightarrow> bool" where
  "spec_preview kp t =
     (if length kp \<le> 200 then t = kp
      else t = take 200 kp @ ''...'' \<and> length t = 203)"

section \<open>Example data\<close>

definition expected_columns :: "string list" where
  "expected_columns = [''video'', ''transcription'', ''key_phrases'']"

definition example_row :: row where
  "example_row = \<lparr>video = Str ''Mod01_WhatIsML.mp4'', transcription = Str ''Welcome'',
     key_phrases = Str ''Supervised learning basics''\<rparr>"

definition other_row :: row where
  "other_row = \<lparr>video = Str ''Mod10_Trees.mp4'', transcription = Str ''Trees'',
     key_phrases = Str ''decision trees''\<rparr>"

definition example_frame :: dataframe where
  "example_frame = \<lparr>columns = expected_columns, rows = [other_row, example_row]\<rparr>"

definition example_world :: world where
  "example_world = \<lparr>data_file = Table example_frame, reads = 0, temp_files = []\<rparr>"

definition example_entry :: entry where
  "example_entry = \<lparr>id' = ''Mod01_WhatIsML.mp4'', title = ''_WhatIsML'',
     transcript = ''Supervised learning basics'',
     url = ''https://arya-geetha-nlp.s3.us-east-1.amazonaws.com/Mod01_WhatIsML.mp4'',
     module = None\<rparr>"

definition repeated_row :: row where
  "repeated_row = \<lparr>video = Str ''Mod01_Recap.mp4_of_Mod01.mp4'', transcription = Str ''Recap'',
     key_phrases = Str ''recap''\<rparr>"

definition repeated_world :: world where
  "repeated_world =
     \<lparr>data_file = Table \<lparr>columns = expected_columns, rows = [repeated_row]\<rparr>,
      reads = 0, temp_files = []\<rparr>"

text \<open>
  A name with a no-break space after the module prefix and a space before \<open>.mp4\<close>.
\<close>

definition titled_row :: row where
  "titled_row = \<lparr>video = Str (''Mod04'' @ [CHR 0xA0] @ ''Intro to ML .mp4''),
     transcription = Str ''Intro'', key_phrases = Str ''overview''\<rparr>"

definition titled_world :: world where
  "titled_world =
     \<lparr>data_file = Table \<lparr>columns = expected_columns, rows = [titled_row]\<rparr>,
      reads = 0, temp_files = []\<rparr>"

definition titled_entry :: entry where
  "titled_entry = \<lparr>id' = ''Mod04'' @ [CHR 0xA0] @ ''Intro to ML .mp4'', title = ''Intro to ML'',
     transcript = ''overview'',
     url = S3_BASE_URL @ ''Mod04'' @ [CHR 0xA0] @ ''Intro to ML .mp4'',
     module = None\<rparr>"

text \<open>A row with a given text as \<open>key_phrases\<close>, and a text of 201 characters.\<close>

definition text_row :: "string \<Rightarrow> row" where
  "text_row kp = \<lparr>video = Str ''Mod05_Long.mp4'', transcription = Str ''Long'',
     key_phrases = Str kp\<rparr>"

definition text_world :: "string \<Rightarrow> world" where
  "text_world kp =
     \<lparr>data_file = Table \<lparr>columns = expected_columns, rows = [other_row, text_row kp]\<rparr>,
      reads = 0, temp_files = []\<rparr>"

definition text_entry :: "string option \<Rightarrow> string \<Rightarrow> entry" where
  "text_entry label t = \<lparr>id' = ''Mod05_Long.mp4'', title = ''_Long'', transcript = t,
     url = S3_BASE_URL @ ''Mod05_Long.mp4'', module = label\<rparr>"

definition long_text :: string where
  "long_text = replicate 201 CHR ''a''"

definition spaced_entry :: entry where
  "spaced_entry = \<lparr>id' = ''Mod03_Nets.mp4'', title = ''_Nets'',
     transcript = ''neural   networks'', url = S3_BASE_URL @ ''Mod03_Nets.mp4'',
     module = Some ''Module 3''\<rparr>"

definition spaced_row :: row where
  "spaced_row = \<lparr>video = Str ''Mod03_Nets.mp4'', transcription = Str ''Nets'',
     key_phrases = Str ''neural   networks''\<rparr>"

definition spaced_world :: world where
  "spaced_world =
     \<lparr>data_file = Table \<lparr>columns = expected_columns, rows = [spaced_row]\<rparr>,
      reads = 0, temp_files = []\<rparr>"

text \<open>A row whose \<open>key_phrases\<close> field is empty in the file, beside a row that has one.\<close>

definition missing_row :: row where
  "missing_row = \<lparr>video = Str ''Mod02_Intro.mp4'', transcription = Str ''Intro'',
     key_phrases = NaN\<rparr>"

definition missing_world :: world where
  "missing_world =
     \<lparr>data_file = Table \<lparr>columns = expected_columns, rows = [missing_row, example_row]\<rparr>,
      reads = 0, temp_files = []\<rparr>"

text \<open>A file with the columns \<open>video\<close> and \<open>transcription\<close> only.\<close>

definition two_column_row :: row where
  "two_column_row = \<lparr>video = Str ''Mod01_WhatIsML.mp4'', transcription = Str ''Welcome'',
     key_phrases = NaN\<rparr>"

definition two_column_frame :: dataframe where
  "two_column_frame = \<lparr>columns = [''video'', ''transcription''], rows = [two_column_row]\<rparr>"

definition two_column_world :: world where
  "two_column_world = \<lparr>data_file = Table two_column_frame, reads = 0, temp_files = []\<rparr>"

text \<open>A file without the \<open>video\<close> column.\<close>

definition no_video_row :: row where
  "no_video_row = \<lparr>video = NaN, transcription = Str ''Welcome'',
     key_phrases = Str ''Supervised learning basics''\<rparr>"

definition no_video_world :: world where
  "no_video_world =
     \<lparr>data_file = Table \<lparr>columns = [''transcription'', ''key_phrases''], rows = [no_video_row]\<rparr>,
      reads = 0, temp_files = []\<rparr>"

definition missing_file_world :: world where
  "missing_file_world = \<lparr>data_file = Missing, reads = 0, temp_files = []\<rparr>"

definition malformed_file_world :: world where
  "malformed_file_world = \<lparr>data_file = Malformed, reads = 0, temp_files = []\<rparr>"

section \<open>Properties of the building blocks\<close>

lemma format_02d_two_digits:
  assumes "0 \<le> n" "n < 100"
  shows "format_02d n = [digit_char (nat n div 10), digit_char (nat n mod 10)]"
proof (cases "n < 10")
  case True
  with assms have "nat \<bar>n\<bar> < 10" by simp
  then have s: "str_nat (nat \<bar>n\<bar>) = [digit_char (nat \<bar>n\<bar>)]" by (simp add: str_nat.simps)
  from assms True have "nat n div 10 = 0" "nat n mod 10 = nat n" "nat \<bar>n\<bar> = nat n" by auto
  with s assms show ?thesis by (simp add: format_02d_def digit_char_def digit_chars_def)
next
  case False
  with assms have k: "nat \<bar>n\<bar> = nat n" "\<not> nat n < 10" "nat n div 10 < 10" by auto
  then have "str_nat (nat n) = [digit_char (nat n div 10), digit_char (nat n mod 10)]"
    by (simp add: str_nat.simps [of "nat n"] str_nat.simps [of "nat n div 10"])
  with k assms show ?thesis by (simp add: format_02d_def)
qed

lemma boolean_index_map:
  "map fst (filter snd (zip xs (map p xs))) = filter p xs"
  by (induction xs) auto

lemma rows_boolean_index_map:
  "rows (boolean_index df (map p (rows df))) = filter p (rows df)"
  by (simp add: boolean_index_def boolean_index_map)

lemma rows_boolean_index_subset:
  "set (rows (boolean_index df bits)) \<subseteq> set (rows df)"
  by (auto simp: boolean_index_def dest: set_zip_leftD)

lemma columns_boolean_index [simp]:
  "columns (boolean_index df bits) = columns df"
  by (simp add: boolean_index_def)

lemma str_slice_to_eq_Str:
  "(str_slice_to k c = Str p) = (\<exists>s. c = Str s \<and> take k s = p)"
  by (cases c) (auto simp: str_slice_to_def)

lemma and_then_Inr:
  "(and_then m f = Inr y) = (\<exists>x. m = Inr x \<and> f x = Inr y)"
  by (cases m) (auto simp: and_then_def)

lemma collect_Inr_mem:
  "collect f xs = Inr ys \<Longrightarrow> y \<in> set ys \<Longrightarrow> \<exists>x\<in>set xs. f x = Inr y"
proof (induction xs arbitrary: ys)
  case Nil
  then show ?case by simp
next
  case (Cons x xs)
  from Cons.prems(1) obtain z zs where
    z: "f x = Inr z" and zs: "collect f xs = Inr zs" and ys: "ys = z # zs"
    by (auto simp: and_then_Inr)
  from Cons.prems(2) ys have "y = z \<or> y \<in> set zs" by auto
  then show ?case
  proof
    assume "y = z"
    with z show ?thesis by simp
  next
    assume "y \<in> set zs"
    with Cons.IH [OF zs] show ?thesis by auto
  qed
qed

lemma transcript_preview_Inr:
  "transcript_preview c = Inr t \<Longrightarrow>
     \<exists>kp. c = Str kp \<and> t = (if 200 < length kp then take 200 kp @ ''...'' else kp)"
  by (cases c) (auto simp: transcript_preview_def)


section \<open>load_data\<close>

lemma load_data_has_video:
  "''video'' \<in> set (columns (fst (load_data w)))"
  by (auto simp: load_data_def load_data_try_def and_then_def getitem_video_def empty_dataset_def
      split: sum.splits if_splits)

lemma data_file_load_data [simp]: "data_file (snd (load_data w)) = data_file w"
  by (simp add: load_data_def)

lemma reads_load_data [simp]: "reads (snd (load_data w)) = Suc (reads w)"
  by (simp add: load_data_def)

lemma load_example: "fst (load_data example_world) = example_frame"
  by code_simp

section \<open>The module listing\<close>

lemma get_module_videos_rows:
  "rows (get_module_videos df n) =
     filter (\<lambda>r. ''video'' \<in> set (columns df) \<and>
               str_slice_to 5 (video r) = Str (module_prefix n)) (rows df)"
proof (cases "''video'' \<in> set (columns df)")
  case False
  then show ?thesis
    by (simp add: get_module_videos_def get_module_videos_try_def getitem_video_def
        and_then_def empty_frame_def)
next
  case has_video: True
  show ?thesis
  proof (cases "rows df \<noteq> [] \<and> list_all (\<lambda>c. c = NaN) (map video (rows df))")
    case True
    then have "\<forall>r\<in>set (rows df). video r = NaN" by (simp add: list_all_iff)
    then have "filter (\<lambda>r. str_slice_to 5 (video r) = Str (module_prefix n)) (rows df) = []"
      by (auto simp: filter_empty_conv str_slice_to_def)
    with True has_video show ?thesis
      by (simp add: get_module_videos_def get_module_videos_try_def getitem_video_def
          and_then_def empty_frame_def str_accessor_def)
  next
    case False
    with has_video show ?thesis
      using rows_boolean_index_map
        [where p = "\<lambda>r. str_slice_to 5 (video r) = Str (module_prefix n)" and df = df]
      by (auto simp add: get_module_videos_def get_module_videos_try_def getitem_video_def
          and_then_def str_accessor_def map_map comp_def)
  qed
qed

text \<open>
  C1. For a module number \<open>n\<close> with \<open>0 \<le> n < 100\<close>, \<open>get_module_videos\<close> returns exactly
  the rows whose \<open>video\<close> is a string with first five characters \<open>Mod\<close> and the two
  decimal digits of \<open>n\<close>, in the order of the data frame. (A frame without a \<open>video\<close>
  column has no such row, and the result is empty.)
\<close>

theorem get_module_videos_selects:
  assumes "0 \<le> n" and "n < 100"
  shows "rows (get_module_videos df n) =
     filter (\<lambda>r. ''video'' \<in> set (columns df) \<and>
               (\<exists>s. video r = Str s \<and>
                    take 5 s = ''Mod'' @ [digit_char (nat n div 10), digit_char (nat n mod 10)]))
       (rows df)"
  using assms
  by (simp add: get_module_videos_rows str_slice_to_eq_Str module_prefix_def format_02d_two_digits)

theorem get_module_videos_selects_witness:
  "(0::int) \<le> 1 \<and> (1::int) < 100 \<and> rows (get_module_videos example_frame 1) = [example_row]"
  using get_module_videos_selects [of 1 example_frame]
  by (simp add: example_frame_def example_row_def other_row_def expected_columns_def
      digit_char_def digit_chars_def)

lemma get_module_videos_subset:
  "set (rows (get_module_videos df n)) \<subseteq> set (rows df)"
  by (simp add: get_module_videos_rows)

lemma module_entry_Inr:
  assumes "module_entry mv n r = Inr v"
  shows "video r = Str (id' v)"
    and "\<exists>kp. key_phrases r = Str kp \<and>
              transcript v = (if 200 < length kp then take 200 kp @ ''...'' else kp)"
    and "title v = strip (replace (replace (id' v) (module_prefix (int n)) []) ''.mp4'' [])"
    and "url v = S3_BASE_URL @ id' v"
  using assms
  by (auto simp: module_entry_def and_then_Inr row_video_def row_key_phrases_def
      split: if_splits cell.splits dest!: transcript_preview_Inr)

lemma get_videos_entry:
  assumes "fst (get_videos n w) = Returned (Json_Videos vs)" and "v \<in> set vs"
  shows "\<exists>r\<in>set (rows (fst (load_data w))).
           module_entry (get_module_videos (fst (load_data w)) (int n)) n r = Inr v"
proof -
  let ?df = "fst (load_data w)"
  from assms(1) have "get_videos_try n ?df = Inr (Json_Videos vs)"
    by (auto simp: get_videos_def split_def Let_def split: sum.splits)
  then have "collect (module_entry (get_module_videos ?df (int n)) n)
               (rows (get_module_videos ?df (int n))) = Inr vs"
    by (auto simp: get_videos_try_def and_then_Inr Let_def)
  from collect_Inr_mem [OF this assms(2)] get_module_videos_subset [of ?df "int n"]
  show ?thesis by blast
qed

lemma get_videos_example:
  "fst (get_videos 1 example_world) = Returned (Json_Videos [example_entry])"
  by code_simp

section \<open>Properties of the string functions\<close>

lemma whitespace_code_points:
  "map of_char whitespace = [9, 10, 11, 12, 13, 28, 29, 30, 31, 32, 133, 160 :: nat]"
  by (simp add: whitespace_def)

lemma lower_latin1:
  "lower [CHR ''A'', CHR ''Z'', CHR ''a'', CHR 0xC0, CHR 0xC9, CHR 0xD6, CHR 0xD7, CHR 0xD8, CHR 0xDE, CHR 0xDF]
     = [CHR ''a'', CHR ''z'', CHR ''a'', CHR 0xE0, CHR 0xE9, CHR 0xF6, CHR 0xD7, CHR 0xF8, CHR 0xFE, CHR 0xDF]"
  by code_simp

lemma lower_eq_Nil [simp]: "(lower q = []) = (q = [])"
  by (simp add: lower_def)

lemma whitespace_plain:
  "list_all (\<lambda>c. lower_char c = c \<and> c \<notin> set re_special \<and> c \<noteq> CHR ''.'') whitespace"
  by code_simp

lemma isspace_plain:
  assumes "isspace c"
  shows "lower_char c = c" and "c \<notin> set re_special" and "c \<noteq> CHR ''.''"
  using assms whitespace_plain by (auto simp: isspace_def list_all_iff)

lemma strip_decompose:
  "\<exists>a b. s = a @ strip s @ b \<and> list_all isspace a \<and> list_all isspace b"
proof -
  let ?t = "dropWhile isspace s"
  have s: "s = takeWhile isspace s @ ?t" by simp
  have "strip s @ rev (takeWhile isspace (rev ?t)) =
          rev (takeWhile isspace (rev ?t) @ dropWhile isspace (rev ?t))"
    by (simp only: strip_def rev_append)
  also have "\<dots> = rev (rev ?t)" by (simp only: takeWhile_dropWhile_id)
  finally have t: "?t = strip s @ rev (takeWhile isspace (rev ?t))" by simp
  have a: "list_all isspace (takeWhile isspace s)"
    by (auto simp: list_all_iff dest: set_takeWhileD)
  have b: "list_all isspace (rev (takeWhile isspace (rev ?t)))"
    by (auto simp: list_all_iff dest: set_takeWhileD)
  from s t have "s = takeWhile isspace s @ strip s @ rev (takeWhile isspace (rev ?t))"
    by simp
  with a b show ?thesis by blast
qed

lemma strip_ends:
  assumes "strip s \<noteq> []"
  shows "\<not> isspace (hd (strip s))" and "\<not> isspace (last (strip s))"
proof -
  let ?t = "dropWhile isspace s"
  let ?u = "dropWhile isspace (rev ?t)"
  from assms have u: "?u \<noteq> []" by (simp add: strip_def)
  have t: "?t \<noteq> []"
  proof
    assume "?t = []"
    then have "?u = []" by (simp only: rev.simps dropWhile.simps)
    with u show False ..
  qed
  have "last (strip s) = hd ?u" using u by (simp add: strip_def last_rev)
  with u show "\<not> isspace (last (strip s))" by (simp add: hd_dropWhile)
  have "hd (strip s) = last ?u" using u by (simp add: strip_def hd_rev)
  also have "\<dots> = last (takeWhile isspace (rev ?t) @ ?u)"
    using last_appendR [OF u, of "takeWhile isspace (rev ?t)"] by (rule sym)
  also have "\<dots> = last (rev ?t)" by (simp only: takeWhile_dropWhile_id)
  also have "\<dots> = hd ?t" using t by (simp add: last_rev)
  finally show "\<not> isspace (hd (strip s))" using t by (simp add: hd_dropWhile)
qed

section \<open>The entries of the listing and of the search\<close>

lemma collect_Inr_all2:
  "collect f xs = Inr ys \<Longrightarrow> list_all2 (\<lambda>x y. f x = Inr y) xs ys"
proof (induction xs arbitrary: ys)
  case Nil
  then show ?case by simp
next
  case (Cons x xs)
  from Cons.prems obtain z zs where
    "f x = Inr z" "collect f xs = Inr zs" "ys = z # zs"
    by (auto simp: and_then_Inr)
  with Cons.IH [of zs] show ?case by simp
qed

lemma collect_Inr_ex:
  "(\<And>x. x \<in> set xs \<Longrightarrow> \<exists>y. f x = Inr y) \<Longrightarrow> \<exists>ys. collect f xs = Inr ys"
proof (induction xs)
  case Nil
  then show ?case by simp
next
  case (Cons x xs)
  from Cons.prems [of x] obtain y where y: "f x = Inr y" by auto
  from Cons.IH Cons.prems obtain ys where "collect f xs = Inr ys" by auto
  with y show ?case by (simp add: and_then_def)
qed

lemma spec_preview_iff:
  "spec_preview kp t = (t = (if 200 < length kp then take 200 kp @ ''...'' else kp))"
  by (auto simp: spec_preview_def not_le)

lemma module_entry_preview:
  assumes "module_entry mv n r = Inr v"
  shows "\<exists>kp. video r = Str (id' v) \<and> key_phrases r = Str kp \<and> spec_preview kp (transcript v)"
  using module_entry_Inr(1,2) [OF assms] by (auto simp: spec_preview_iff)

lemma columns_get_module_videos:
  "r \<in> set (rows (get_module_videos df n)) \<Longrightarrow> columns (get_module_videos df n) = columns df"
  by (auto simp: get_module_videos_def get_module_videos_try_def and_then_def empty_frame_def
      split: sum.splits)

lemma module_entry_succeeds:
  assumes "r \<in> set (rows (get_module_videos df m))"
      and "''key_phrases'' \<in> set (columns df)"
      and "key_phrases r \<noteq> NaN"
  shows "\<exists>v. module_entry (get_module_videos df m) n r = Inr v"
proof -
  from assms(1) have cols: "columns (get_module_videos df m) = columns df"
    by (rule columns_get_module_videos)
  from assms(1) have "''video'' \<in> set (columns df)" "\<exists>s. video r = Str s"
    by (auto simp: get_module_videos_rows str_slice_to_eq_Str)
  moreover from assms(3) obtain kp where "key_phrases r = Str kp" by (cases "key_phrases r") auto
  ultimately show ?thesis using assms(2) cols
    by (auto simp: module_entry_def and_then_def row_video_def row_key_phrases_def
        transcript_preview_def)
qed

lemma get_videos_Returned:
  "(fst (get_videos n w) = Returned (Json_Videos vs)) =
     (collect (module_entry (get_module_videos (fst (load_data w)) (int n)) n)
        (rows (get_module_videos (fst (load_data w)) (int n))) = Inr vs)"
  using load_data_has_video [of w]
  by (auto simp: get_videos_def split_def Let_def get_videos_try_def and_then_def getitem_video_def
      split: sum.splits)

lemma map2_or_map:
  "map2 (\<or>) (map f xs) (map g xs) = map (\<lambda>x. f x \<or> g x) xs"
  by (induction xs) auto

lemma str_contains_lower:
  "str_contains beyond (map (str_lower \<circ> f) rs) pat =
     (case re_engine beyond pat of
        None \<Rightarrow> Inl ReError
      | Some found \<Rightarrow> Inr (map (\<lambda>r. cell_hit found (f r)) rs))"
  by (simp add: str_contains_def cell_hit_def str_lower_def comp_def split: cell.splits option.splits)

lemma str_accessor_Inr: "str_accessor col = Inr col' \<Longrightarrow> col' = col"
  by (simp add: str_accessor_def split: if_splits)

lemma search_try_Inr:
  assumes "search_try beyond query df = Inr resp"
  shows "\<exists>found. re_engine beyond query = Some found \<and>
           and_then
             (collect
                (search_entry (boolean_index df
                   (map (\<lambda>r. cell_hit found (video r) \<or> cell_hit found (key_phrases r)) (rows df))))
                (rows (boolean_index df
                   (map (\<lambda>r. cell_hit found (video r) \<or> cell_hit found (key_phrases r)) (rows df)))))
             (\<lambda>videos. Inr (Json_Videos videos)) = Inr resp"
  using assms
  by (auto simp: search_try_def and_then_Inr Let_def getitem_video_def getitem_key_phrases_def
      str_contains_lower map2_or_map split: if_splits option.splits dest!: str_accessor_Inr)

lemma search_try_rows:
  assumes "search_try beyond query df = Inr (Json_Videos vs)"
  shows "\<exists>found. re_engine beyond query = Some found \<and>
           list_all2 (\<lambda>r v. search_entry (boolean_index df
                   (map (\<lambda>r. cell_hit found (video r) \<or> cell_hit found (key_phrases r)) (rows df))) r = Inr v)
             (filter (\<lambda>r. cell_hit found (video r) \<or> cell_hit found (key_phrases r)) (rows df)) vs"
proof -
  from search_try_Inr [OF assms] obtain found where
    f: "re_engine beyond query = Some found"
    and c: "collect
                (search_entry (boolean_index df
                   (map (\<lambda>r. cell_hit found (video r) \<or> cell_hit found (key_phrases r)) (rows df))))
                (rows (boolean_index df
                   (map (\<lambda>r. cell_hit found (video r) \<or> cell_hit found (key_phrases r)) (rows df)))) = Inr vs"
    by (auto simp: and_then_Inr)
  from collect_Inr_all2 [OF c] f show ?thesis by (auto simp: rows_boolean_index_map)
qed

lemma search_videos_Returned:
  assumes "fst (search_videos beyond q w) = Returned (Json_Videos vs)" and "vs \<noteq> []"
  shows "search_try beyond (lower (case q of None \<Rightarrow> [] | Some s \<Rightarrow> s)) (fst (load_data w))
           = Inr (Json_Videos vs)"
  using assms
  by (auto simp: search_videos_def split_def Let_def split: sum.splits if_splits)

lemma search_entry_Inr:
  assumes "search_entry mv r = Inr v"
  shows "video r = Str (id' v)"
    and "\<exists>kp. key_phrases r = Str kp \<and>
              transcript v = (if 200 < length kp then take 200 kp @ ''...'' else kp)"
proof -
  from assms obtain name c t m where
    name: "video r = Str name" and c: "row_key_phrases mv r = Inr c"
    and t: "transcript_preview c = Inr t"
    and v: "v = \<lparr>id' = name,
                 title = strip (replace (replace name (''Mod'' @ take 2 (drop 3 name)) []) ''.mp4'' []),
                 transcript = t, url = S3_BASE_URL @ name,
                 module = Some (''Module '' @ str_int m)\<rparr>"
    by (auto simp: search_entry_def and_then_Inr row_video_def Let_def
        split: if_splits cell.splits option.splits)
  from name v show "video r = Str (id' v)" by simp
  from c have "c = key_phrases r" by (simp add: row_key_phrases_def split: if_splits)
  with transcript_preview_Inr [OF t] v
  show "\<exists>kp. key_phrases r = Str kp \<and>
              transcript v = (if 200 < length kp then take 200 kp @ ''...'' else kp)"
    by auto
qed

lemma list_all2_mem:
  "list_all2 P xs ys \<Longrightarrow> y \<in> set ys \<Longrightarrow> \<exists>x\<in>set xs. P x y"
  by (induction rule: list_all2_induct) auto

lemma search_entry_preview:
  assumes "search_entry mv r = Inr v"
  shows "\<exists>kp. video r = Str (id' v) \<and> key_phrases r = Str kp \<and> spec_preview kp (transcript v)"
  using search_entry_Inr [OF assms] by (auto simp: spec_preview_iff)

lemma search_videos_entry:
  assumes "fst (search_videos beyond q w) = Returned (Json_Videos vs)" and "v \<in> set vs"
  shows "\<exists>r\<in>set (rows (fst (load_data w))). \<exists>mv. search_entry mv r = Inr v"
proof -
  from assms(2) have "vs \<noteq> []" by auto
  from search_try_rows [OF search_videos_Returned [OF assms(1) this]] obtain found mv where
    "list_all2 (\<lambda>r v. search_entry mv r = Inr v)
       (filter (\<lambda>r. cell_hit found (video r) \<or> cell_hit found (key_phrases r))
          (rows (fst (load_data w)))) vs"
    by blast
  from list_all2_mem [OF this assms(2)] show ?thesis by auto
qed

lemma re_match_literal:
  "CHR ''.'' \<notin> set q \<Longrightarrow> re_match (re_compile q) s = prefix q s"
proof (induction q arbitrary: s)
  case Nil
  then show ?case by (simp add: re_compile_def)
next
  case (Cons a q)
  then have IH: "\<And>t. re_match (re_compile q) t = prefix q t" by simp
  from Cons.prems have a: "a \<noteq> CHR ''.''" by auto
  show ?case
  proof (cases s)
    case Nil
    then show ?thesis by (simp add: re_compile_def)
  next
    case (Cons c cs)
    with a IH [of cs] show ?thesis by (simp add: re_compile_def)
  qed
qed

lemma re_search_literal:
  assumes "CHR ''.'' \<notin> set q"
  shows "re_search (re_compile q) s = sublist q s"
proof (induction s)
  case Nil
  from assms show ?case by (simp add: re_match_literal)
next
  case (Cons c cs)
  with assms show ?case by (simp add: re_match_literal sublist_Cons_right)
qed

lemma re_engine_literal:
  assumes "re_supported q" and "CHR ''.'' \<notin> set q"
  shows "re_engine beyond q = Some (sublist q)"
  using assms by (auto simp: re_engine_def re_search_literal)

lemma search_videos_nonempty:
  assumes "q \<noteq> []"
  shows "search_videos beyond (Some q) w =
           (case search_try beyond (lower q) (fst (load_data w)) of
              Inr resp \<Rightarrow> Returned resp
            | Inl e \<Rightarrow> Returned (Json_Error 500 (Str_Of e)),
            snd (load_data w))"
  using assms by (simp add: search_videos_def Let_def split_def)

lemma search_videos_matches:
  assumes "fst (search_videos beyond (Some q) w) = Returned (Json_Videos vs)" and "q \<noteq> []"
  shows "\<exists>found. re_engine beyond (lower q) = Some found \<and>
           map (\<lambda>v. Str (id' v)) vs =
             map video (filter (\<lambda>r. cell_hit found (video r) \<or> cell_hit found (key_phrases r))
                          (rows (fst (load_data w))))"
proof -
  from assms have "search_try beyond (lower q) (fst (load_data w)) = Inr (Json_Videos vs)"
    by (auto simp: search_videos_nonempty split: sum.splits)
  from search_try_rows [OF this] obtain found mv where
    f: "re_engine beyond (lower q) = Some found"
    and l: "list_all2 (\<lambda>r v. search_entry mv r = Inr v)
              (filter (\<lambda>r. cell_hit found (video r) \<or> cell_hit found (key_phrases r))
                 (rows (fst (load_data w)))) vs"
    by blast
  from l have "list_all2 (\<lambda>r v. video r = Str (id' v))
              (filter (\<lambda>r. cell_hit found (video r) \<or> cell_hit found (key_phrases r))
                 (rows (fst (load_data w)))) vs"
    by (rule list_all2_mono) (rule search_entry_Inr(1))
  then have "map (\<lambda>v. Str (id' v)) vs =
             map video (filter (\<lambda>r. cell_hit found (video r) \<or> cell_hit found (key_phrases r))
                          (rows (fst (load_data w))))"
    by (induction rule: list_all2_induct) auto
  with f show ?thesis by blast
qed

section \<open>The transcript preview\<close>

lemma get_videos_text:
  "fst (get_videos 5 (text_world kp)) =
     Returned (Json_Videos
       [text_entry None (if 200 < length kp then take 200 kp @ ''...'' else kp)])"
  by code_simp

lemma search_videos_text:
  "fst (search_videos beyond (Some ''Long'') (text_world kp)) =
     Returned (Json_Videos
       [text_entry (Some ''Module 5'') (if 200 < length kp then take 200 kp @ ''...'' else kp)])"
  by code_simp

lemma long_text_preview:
  "length long_text = 201"
  "(if 200 < length long_text then take 200 long_text @ ''...'' else long_text) =
     replicate 200 CHR ''a'' @ ''...''"
  by (simp_all add: long_text_def)

text \<open>
  C4. The entries that the module listing returns are, one for one and in order, the
  rows that \<open>get_module_videos\<close> selects; every entry that the search returns belongs
  to a row of the loaded data. In both cases the row's \<open>key_phrases\<close> is a text \<open>kp\<close>
  and the entry's transcript is its preview: \<open>kp\<close> itself when \<open>kp\<close> has at most 200
  characters, otherwise the first 200 characters of \<open>kp\<close> followed by three dots, 203
  characters in all. The listing does return its entries whenever the selected rows
  have a text as \<open>key_phrases\<close>. The search is stated for every behaviour of the
  regular expression library on the patterns that are not modelled.
\<close>

theorem transcript_preview_of_listed:
  "(fst (get_videos n w) = Returned (Json_Videos vs) \<longrightarrow>
      list_all2 (\<lambda>r v. \<exists>kp. video r = Str (id' v) \<and> key_phrases r = Str kp \<and>
                          spec_preview kp (transcript v))
        (rows (get_module_videos (fst (load_data w)) (int n))) vs) \<and>
   (fst (search_videos beyond q w) = Returned (Json_Videos vs') \<longrightarrow>
      (\<forall>v\<in>set vs'. \<exists>r\<in>set (rows (fst (load_data w))). \<exists>kp.
          video r = Str (id' v) \<and> key_phrases r = Str kp \<and> spec_preview kp (transcript v))) \<and>
   (''key_phrases'' \<in> set (columns (fst (load_data w))) \<and>
    list_all (\<lambda>r. key_phrases r \<noteq> NaN) (rows (get_module_videos (fst (load_data w)) (int n))) \<longrightarrow>
      (\<exists>vs. fst (get_videos n w) = Returned (Json_Videos vs)))"
proof (intro conjI impI)
  assume "fst (get_videos n w) = Returned (Json_Videos vs)"
  then have "list_all2 (\<lambda>r v. module_entry (get_module_videos (fst (load_data w)) (int n)) n r = Inr v)
               (rows (get_module_videos (fst (load_data w)) (int n))) vs"
    by (simp add: get_videos_Returned collect_Inr_all2)
  then show "list_all2 (\<lambda>r v. \<exists>kp. video r = Str (id' v) \<and> key_phrases r = Str kp \<and>
                          spec_preview kp (transcript v))
        (rows (get_module_videos (fst (load_data w)) (int n))) vs"
    by (rule list_all2_mono) (rule module_entry_preview)
next
  assume s: "fst (search_videos beyond q w) = Returned (Json_Videos vs')"
  show "\<forall>v\<in>set vs'. \<exists>r\<in>set (rows (fst (load_data w))). \<exists>kp.
          video r = Str (id' v) \<and> key_phrases r = Str kp \<and> spec_preview kp (transcript v)"
  proof
    fix v assume "v \<in> set vs'"
    from search_videos_entry [OF s this] show "\<exists>r\<in>set (rows (fst (load_data w))). \<exists>kp.
          video r = Str (id' v) \<and> key_phrases r = Str kp \<and> spec_preview kp (transcript v)"
      by (blast dest: search_entry_preview)
  qed
next
  assume a: "''key_phrases'' \<in> set (columns (fst (load_data w))) \<and>
    list_all (\<lambda>r. key_phrases r \<noteq> NaN) (rows (get_module_videos (fst (load_data w)) (int n)))"
  have "\<exists>vs. collect (module_entry (get_module_videos (fst (load_data w)) (int n)) n)
        (rows (get_module_videos (fst (load_data w)) (int n))) = Inr vs"
  proof (rule collect_Inr_ex)
    fix r assume "r \<in> set (rows (get_module_videos (fst (load_data w)) (int n)))"
    with a show "\<exists>v. module_entry (get_module_videos (fst (load_data w)) (int n)) n r = Inr v"
      by (auto simp: list_all_iff intro: module_entry_succeeds)
  qed
  then show "\<exists>vs. fst (get_videos n w) = Returned (Json_Videos vs)"
    by (simp add: get_videos_Returned)
qed

theorem transcript_preview_of_listed_witness:
  "fst (get_videos 5 (text_world long_text)) =
     Returned (Json_Videos [text_entry None (replicate 200 CHR ''a'' @ ''...'')]) \<and>
   fst (search_videos no_beyond (Some ''Long'') (text_world long_text)) =
     Returned (Json_Videos [text_entry (Some ''Module 5'') (replicate 200 CHR ''a'' @ ''...'')]) \<and>
   length long_text = 201 \<and>
   length (transcript (text_entry None (replicate 200 CHR ''a'' @ ''...''))) = 203 \<and>
   list_all2 (\<lambda>r v. \<exists>kp. video r = Str (id' v) \<and> key_phrases r = Str kp \<and>
                        spec_preview kp (transcript v))
     (rows (get_module_videos (fst (load_data (text_world long_text))) 5))
     [text_entry None (replicate 200 CHR ''a'' @ ''...'')] \<and>
   (\<exists>r\<in>set (rows (fst (load_data (text_world long_text)))). \<exists>kp.
      video r = Str (id' (text_entry (Some ''Module 5'') (replicate 200 CHR ''a'' @ ''...''))) \<and>
      key_phrases r = Str kp \<and>
      spec_preview kp
        (transcript (text_entry (Some ''Module 5'') (replicate 200 CHR ''a'' @ ''...'')))) \<and>
   (\<exists>vs. fst (get_videos 5 (text_world long_text)) = Returned (Json_Videos vs))"
proof -
  let ?t = "replicate 200 CHR ''a'' @ ''...''"
  have g: "fst (get_videos 5 (text_world long_text)) = Returned (Json_Videos [text_entry None ?t])"
    using get_videos_text [of long_text] by (simp only: long_text_preview(2))
  have s: "fst (search_videos no_beyond (Some ''Long'') (text_world long_text)) =
             Returned (Json_Videos [text_entry (Some ''Module 5'') ?t])"
    using search_videos_text [of no_beyond long_text] by (simp only: long_text_preview(2))
  have c: "''key_phrases'' \<in> set (columns (fst (load_data (text_world long_text)))) \<and>
           list_all (\<lambda>r. key_phrases r \<noteq> NaN)
             (rows (get_module_videos (fst (load_data (text_world long_text))) (int 5)))"
    by code_simp
  from transcript_preview_of_listed
    [of 5 "text_world long_text" "[text_entry None ?t]" no_beyond "Some ''Long''"
        "[text_entry (Some ''Module 5'') ?t]"]
    g s c
  show ?thesis by (simp add: long_text_preview text_entry_def)
qed

section \<open>The transcript download\<close>

lemma select_video_rows:
  "''video'' \<in> set (columns df) \<Longrightarrow>
     select_video df video_id =
       Inr (boolean_index df (map (\<lambda>r. video r = Str video_id) (rows df)))"
  by (simp add: select_video_def getitem_video_def and_then_def comp_def)

lemma data_file_download:
  "data_file (snd (download_transcript video_id w)) = data_file w"
proof -
  have "data_file (snd (download_transcript video_id w)) = data_file (snd (load_data w))"
    by (simp add: download_transcript_def split_def Let_def
        split: sum.splits list.splits cell.splits)
  then show ?thesis by simp
qed

lemma download_not_found:
  "(fst (download_transcript video_id w) = Returned (Json_Error 404 (Message ''Video not found'')))
     = (filter (\<lambda>r. video r = Str video_id) (rows (fst (load_data w))) = [])"
  using select_video_rows [OF load_data_has_video, of w video_id]
  by (simp add: download_transcript_def split_def Let_def rows_boolean_index_map
      split: sum.splits list.splits cell.splits)

text \<open>
  C6. The lookup of the download selects exactly the rows whose \<open>video\<close> is the string
  \<open>video_id\<close>, character for character. The response is the 404 response with the
  error text \<open>Video not found\<close> if and only if no row of the loaded data has that
  \<open>video\<close>, and the backing file is the same after the request.
\<close>

theorem download_lookup_exact:
  "(\<exists>found. select_video (fst (load_data w)) video_id = Inr found \<and>
        rows found = filter (\<lambda>r. video r = Str video_id) (rows (fst (load_data w)))) \<and>
   ((fst (download_transcript video_id w) =
       Returned (Json_Error 404 (Message ''Video not found'')))
     = (\<not> (\<exists>r\<in>set (rows (fst (load_data w))). video r = Str video_id))) \<and>
   data_file (snd (download_transcript video_id w)) = data_file w"
  using select_video_rows [OF load_data_has_video, of w video_id]
  by (simp add: download_not_found data_file_download rows_boolean_index_map filter_empty_conv)

theorem download_lookup_exact_witness:
  "fst (download_transcript ''mod01_whatisml.mp4'' example_world) =
     Returned (Json_Error 404 (Message ''Video not found'')) \<and>
   fst (download_transcript ''Mod01_WhatIsML.mp4'' example_world) \<noteq>
     Returned (Json_Error 404 (Message ''Video not found''))"
proof -
  have rows: "rows (fst (load_data example_world)) = [other_row, example_row]"
    by (simp add: load_example example_frame_def)
  show ?thesis
    using download_lookup_exact [of example_world "''mod01_whatisml.mp4''"]
      download_lookup_exact [of example_world "''Mod01_WhatIsML.mp4''"]
    by (simp add: rows other_row_def example_row_def)
qed




section \<open>The title of a listed video\<close>

lemma get_videos_titled:
  "fst (get_videos 4 titled_world) = Returned (Json_Videos [titled_entry])"
  by code_simp

text \<open>
  C5, as the claim states it, fails: \<open>replace\<close> removes every occurrence of the module
  prefix and of \<open>.mp4\<close>, not only the leading and the trailing one. For the name
  \<open>Mod01_Recap.mp4_of_Mod01.mp4\<close> the listing of module 1 gives the title
  \<open>_Recap_of_\<close>, where removing the leading prefix and the trailing suffix only would
  give \<open>_Recap.mp4_of_Mod01\<close>.
\<close>

theorem title_removes_every_occurrence:
  "fst (get_videos 1 repeated_world) =
     Returned (Json_Videos
       [\<lparr>id' = ''Mod01_Recap.mp4_of_Mod01.mp4'', title = ''_Recap_of_'', transcript = ''recap'',
         url = ''https://arya-geetha-nlp.s3.us-east-1.amazonaws.com/Mod01_Recap.mp4_of_Mod01.mp4'',
         module = None\<rparr>]) \<and>
   spec_title 1 ''Mod01_Recap.mp4_of_Mod01.mp4'' = ''_Recap.mp4_of_Mod01''"
  by code_simp

text \<open>
  C5, amended. Every entry of the listing of module \<open>n\<close> belongs to a row of the loaded
  data. Take the row's \<open>video\<close>, remove every occurrence of the module prefix, then
  every occurrence of \<open>.mp4\<close>: the title is what is left of that between a leading and
  a trailing run of white space, and it neither starts nor ends with white space. The
  url is the base URL followed by the \<open>video\<close>. For \<open>Mod01_WhatIsML.mp4\<close> the title
  is \<open>_WhatIsML\<close>.
\<close>

theorem module_title_and_url:
  assumes "fst (get_videos n w) = Returned (Json_Videos vs)" and "v \<in> set vs"
  shows "(\<exists>r\<in>set (rows (fst (load_data w))). video r = Str (id' v)) \<and>
         title v = strip (replace (replace (id' v) (module_prefix (int n)) []) ''.mp4'' []) \<and>
         (\<exists>a b. replace (replace (id' v) (module_prefix (int n)) []) ''.mp4'' [] = a @ title v @ b \<and>
                list_all isspace a \<and> list_all isspace b) \<and>
         (title v \<noteq> [] \<longrightarrow> \<not> isspace (hd (title v)) \<and> \<not> isspace (last (title v))) \<and>
         url v = S3_BASE_URL @ id' v"
proof -
  from get_videos_entry [OF assms] obtain r where
    r: "r \<in> set (rows (fst (load_data w)))"
    and e: "module_entry (get_module_videos (fst (load_data w)) (int n)) n r = Inr v"
    by blast
  let ?cleaned = "replace (replace (id' v) (module_prefix (int n)) []) ''.mp4'' []"
  from module_entry_Inr [OF e] have v: "video r = Str (id' v)" and t: "title v = strip ?cleaned"
    and u: "url v = S3_BASE_URL @ id' v"
    by auto
  from strip_decompose [of ?cleaned] t
  have d: "\<exists>a b. ?cleaned = a @ title v @ b \<and> list_all isspace a \<and> list_all isspace b"
    by simp
  from strip_ends [of ?cleaned] t
  have "title v \<noteq> [] \<longrightarrow> \<not> isspace (hd (title v)) \<and> \<not> isspace (last (title v))"
    by simp
  with r v t u d show ?thesis by blast
qed

theorem module_title_and_url_witness:
  "fst (get_videos 4 titled_world) = Returned (Json_Videos [titled_entry]) \<and>
   id' titled_entry = ''Mod04'' @ [CHR 0xA0] @ ''Intro to ML .mp4'' \<and>
   title titled_entry = ''Intro to ML'' \<and>
   strip (replace (replace (''Mod04'' @ [CHR 0xA0] @ ''Intro to ML .mp4'') (module_prefix 4) [])
            ''.mp4'' []) = ''Intro to ML'' \<and>
   strip (replace (replace ''Mod01_WhatIsML.mp4'' (module_prefix 1) []) ''.mp4'' []) = ''_WhatIsML'' \<and>
   url example_entry = S3_BASE_URL @ ''Mod01_WhatIsML.mp4''"
proof -
  have v: "titled_entry \<in> set [titled_entry]" "example_entry \<in> set [example_entry]" by simp_all
  from module_title_and_url [OF get_videos_titled v(1)]
    module_title_and_url [OF get_videos_example v(2)] get_videos_titled
  show ?thesis by (simp add: titled_entry_def example_entry_def)
qed

section \<open>The empty query\<close>

lemma whitespace_query:
  assumes "list_all isspace q"
  shows "lower q = q" and "re_supported q" and "CHR ''.'' \<notin> set q"
proof -
  from assms have a: "\<And>c. c \<in> set q \<Longrightarrow> isspace c" by (simp add: list_all_iff)
  show "lower q = q" unfolding lower_def by (rule map_idI) (rule isspace_plain(1) [OF a])
  show "re_supported q" unfolding re_supported_def list_all_iff
    by (blast dest: a isspace_plain(2))
  show "CHR ''.'' \<notin> set q" by (blast dest: a isspace_plain(3))
qed

lemma search_spaces_example:
  "search_videos beyond (Some ''   '') spaced_world =
     (Returned (Json_Videos [spaced_entry]), spaced_world\<lparr>reads := 1\<rparr>)"
  by code_simp

text \<open>
  C3, as the claim states it, fails for a query of white space: the handler tests the
  lowered query for emptiness only. A query of three spaces reads the data and returns
  the row whose \<open>key_phrases\<close> holds three spaces in a row.
\<close>

theorem search_whitespace_query_matches:
  "search_videos no_beyond (Some ''   '') spaced_world =
     (Returned (Json_Videos
        [\<lparr>id' = ''Mod03_Nets.mp4'', title = ''_Nets'', transcript = ''neural   networks'',
          url = ''https://arya-geetha-nlp.s3.us-east-1.amazonaws.com/Mod03_Nets.mp4'',
          module = Some ''Module 3''\<rparr>]),
      spaced_world\<lparr>reads := 1\<rparr>)"
  by code_simp

text \<open>
  C3, amended. A search with no \<open>q\<close> argument or with the empty string returns the
  empty list and leaves the world as it was: the data is not read. A query of white
  space that is not empty is searched like any other query: the data is read once, and
  when the search answers with a list of videos, the list holds, in row order, exactly
  the rows whose lowered \<open>video\<close> or lowered \<open>key_phrases\<close> contains the query.
\<close>

theorem search_empty_query:
  "search_videos beyond None w = (Returned (Json_Videos []), w) \<and>
   search_videos beyond (Some []) w = (Returned (Json_Videos []), w) \<and>
   (q \<noteq> [] \<and> list_all isspace q \<longrightarrow>
      reads (snd (search_videos beyond (Some q) w)) = Suc (reads w) \<and>
      (\<forall>vs. fst (search_videos beyond (Some q) w) = Returned (Json_Videos vs) \<longrightarrow>
         map (\<lambda>v. Str (id' v)) vs =
           map video (filter (\<lambda>r. cell_hit (sublist q) (video r) \<or>
                                   cell_hit (sublist q) (key_phrases r))
                        (rows (fst (load_data w))))))"
proof (intro conjI impI allI)
  show "search_videos beyond None w = (Returned (Json_Videos []), w)"
    by (simp add: search_videos_def lower_def)
  show "search_videos beyond (Some []) w = (Returned (Json_Videos []), w)"
    by (simp add: search_videos_def lower_def)
next
  assume "q \<noteq> [] \<and> list_all isspace q"
  then show "reads (snd (search_videos beyond (Some q) w)) = Suc (reads w)"
    by (simp add: search_videos_nonempty)
next
  fix vs
  assume q: "q \<noteq> [] \<and> list_all isspace q"
    and r: "fst (search_videos beyond (Some q) w) = Returned (Json_Videos vs)"
  from q have "re_engine beyond (lower q) = Some (sublist q)"
    by (simp add: whitespace_query re_engine_literal)
  with search_videos_matches [OF r] q
  show "map (\<lambda>v. Str (id' v)) vs =
           map video (filter (\<lambda>r. cell_hit (sublist q) (video r) \<or>
                                   cell_hit (sublist q) (key_phrases r))
                        (rows (fst (load_data w))))"
    by auto
qed

theorem search_empty_query_witness:
  "search_videos no_beyond None spaced_world = (Returned (Json_Videos []), spaced_world) \<and>
   search_videos no_beyond (Some []) spaced_world = (Returned (Json_Videos []), spaced_world) \<and>
   reads (snd (search_videos no_beyond (Some ''   '') spaced_world)) = Suc (reads spaced_world) \<and>
   fst (search_videos no_beyond (Some ''   '') spaced_world) = Returned (Json_Videos [spaced_entry]) \<and>
   map (\<lambda>v. Str (id' v)) [spaced_entry] =
     map video (filter (\<lambda>r. cell_hit (sublist ''   '') (video r) \<or>
                             cell_hit (sublist ''   '') (key_phrases r))
                  (rows (fst (load_data spaced_world))))"
proof -
  have q: "''   '' \<noteq> [] \<and> list_all isspace ''   ''" by code_simp
  have r: "fst (search_videos no_beyond (Some ''   '') spaced_world) =
             Returned (Json_Videos [spaced_entry])"
    by (simp add: search_spaces_example)
  from search_empty_query [of no_beyond spaced_world "''   ''"] q r
  show ?thesis by simp
qed

section \<open>What load_data returns\<close>

text \<open>
  C8, as the claim states it, fails for a missing expected column other than \<open>video\<close>:
  a file with the columns \<open>video\<close> and \<open>transcription\<close> only is returned as it was
  read, not as the empty dataset, and the module listing then answers with the
  KeyError as a server error.
\<close>

theorem load_data_keeps_frame_without_key_phrases:
  "fst (load_data two_column_world) = two_column_frame \<and>
   two_column_frame \<noteq> empty_dataset \<and>
   fst (get_videos 1 two_column_world) = Returned (Json_Error 500 (Str_Of KeyError))"
  by code_simp

text \<open>
  C8, amended. \<open>load_data\<close> never raises. It returns the empty dataset with the three
  expected columns when the file is missing, when it cannot be parsed, and when the
  table has no \<open>video\<close> column or a \<open>video\<close> column with rows but no string in it;
  every other table is returned as it was read, whether or not it has the columns
  \<open>transcription\<close> and \<open>key_phrases\<close>. The file is not changed.
\<close>

theorem load_data_fail_soft:
  "fst (load_data w) =
     (case data_file w of
        Table df \<Rightarrow>
          if ''video'' \<in> set (columns df) \<and>
             (rows df = [] \<or> (\<exists>r\<in>set (rows df). \<exists>s. video r = Str s))
          then df else empty_dataset
      | Missing \<Rightarrow> empty_dataset
      | Malformed \<Rightarrow> empty_dataset) \<and>
   data_file (snd (load_data w)) = data_file w"
proof -
  have "list_all (\<lambda>c. c = NaN) (map video rs) = (\<not> (\<exists>r\<in>set rs. \<exists>s. video r = Str s))"
    for rs :: "row list"
    by (induction rs) (auto intro: cell.exhaust)
  then show ?thesis
    by (auto simp: load_data_def load_data_try_def read_csv_def and_then_def getitem_video_def
        str_accessor_def split: file_state.splits)
qed

theorem load_data_fail_soft_witness:
  "fst (load_data missing_file_world) = empty_dataset \<and>
   fst (load_data malformed_file_world) = empty_dataset \<and>
   fst (load_data no_video_world) = empty_dataset \<and>
   fst (load_data two_column_world) = two_column_frame"
  using load_data_fail_soft [of missing_file_world] load_data_fail_soft [of malformed_file_world]
    load_data_fail_soft [of no_video_world] load_data_fail_soft [of two_column_world]
  by (simp add: missing_file_world_def malformed_file_world_def no_video_world_def
      two_column_world_def two_column_frame_def two_column_row_def)

section \<open>What the search matches\<close>

text \<open>
  A query whose pattern does not compile is answered with the error as a server error,
  whatever the data.
\<close>

lemma load_data_video_strs:
  "\<exists>names. getitem_video (fst (load_data w)) = Inr names \<and> str_accessor names = Inr names"
  by (auto simp: load_data_def load_data_try_def read_csv_def and_then_def getitem_video_def
      str_accessor_def empty_dataset_def split: sum.splits file_state.splits if_splits)

lemma str_accessor_lower:
  "str_accessor names = Inr names \<Longrightarrow>
     str_accessor (map str_lower names) = Inr (map str_lower names)"
  by (auto simp: str_accessor_def list_all_iff str_lower_def split: if_splits cell.splits)

lemma search_videos_re_error:
  assumes "q \<noteq> []" and "re_engine beyond (lower q) = None"
  shows "fst (search_videos beyond (Some q) w) = Returned (Json_Error 500 (Str_Of ReError))"
proof -
  from load_data_video_strs [of w] obtain names where
    n: "getitem_video (fst (load_data w)) = Inr names" "str_accessor names = Inr names"
    by blast
  from str_accessor_lower [OF n(2)] n assms(2)
  have "search_try beyond (lower q) (fst (load_data w)) = Inl ReError"
    by (simp add: search_try_def and_then_def str_contains_def)
  with assms(1) show ?thesis by (simp add: search_videos_nonempty)
qed

text \<open>
  C2. The query \<open>a.i\<close> is a substring neither of the lowered \<open>video\<close> nor of the
  lowered \<open>key_phrases\<close> of the example row, and the search returns the row: the dot of
  the query matches any character (\<open>ati\<close> in the name, \<open>asi\<close> in the phrases).
\<close>

theorem search_dot_matches_any_character:
  "fst (search_videos beyond (Some ''a.i'') example_world) =
     Returned (Json_Videos
       [\<lparr>id' = ''Mod01_WhatIsML.mp4'', title = ''_WhatIsML'',
         transcript = ''Supervised learning basics'',
         url = ''https://arya-geetha-nlp.s3.us-east-1.amazonaws.com/Mod01_WhatIsML.mp4'',
         module = Some ''Module 1''\<rparr>]) \<and>
   \<not> sublist (lower ''a.i'') (lower ''Mod01_WhatIsML.mp4'') \<and>
   \<not> sublist (lower ''a.i'') (lower ''Supervised learning basics'')"
  by code_simp

text \<open>
  C10. The row \<open>Mod02_Intro.mp4\<close> has no \<open>key_phrases\<close>, and its lowered name contains
  the query \<open>intro\<close>. The mask selects it, and the loop that builds the entries then
  takes \<open>len\<close> of the missing value: the search answers with the TypeError as a server
  error, and the row is not returned.
\<close>

theorem search_fails_on_missing_key_phrases:
  "fst (search_videos beyond (Some ''intro'') missing_world) =
     Returned (Json_Error 500 (Str_Of TypeError)) \<and>
   sublist (lower ''intro'') (lower ''Mod02_Intro.mp4'')"
  by code_simp

section \<open>Exceptions at the request boundary\<close>

text \<open>The module listing and the search catch every exception of their body.\<close>

lemma get_videos_returns: "\<exists>resp. fst (get_videos n w) = Returned resp"
  by (simp add: get_videos_def split_def Let_def split: sum.splits)

lemma search_videos_returns: "\<exists>resp. fst (search_videos beyond q w) = Returned resp"
  by (simp add: search_videos_def split_def Let_def split: sum.splits)

text \<open>
  C9. The download has no \<open>try\<close>: for the row without \<open>key_phrases\<close> the TypeError of
  \<open>f.write\<close> leaves the view function, where the module listing of the same data
  returns the error as a JSON body with status 500.
\<close>

theorem download_raises_on_missing_key_phrases:
  "fst (download_transcript ''Mod02_Intro.mp4'' missing_world) = Raised TypeError \<and>
   fst (get_videos 2 missing_world) = Returned (Json_Error 500 (Str_Of TypeError))"
  by code_simp

end
